theory Spec2Isabelle
  imports Main
begin

section \<open>The request/response pair and handlers\<close>

text \<open>
  The layer passes a response writer \<open>w\<close> and a request \<open>r\<close> through every handler. Both are
  mutated in place; the model threads them as one value, the exchange: the calls made on the
  response writer, in order, and the request-scoped context of \<open>r\<close>.

  A Go function either returns or panics. A panic carries a value, and what was written to
  \<open>w\<close> and \<open>r\<close> before the panic stays written, so both outcomes carry the state.
  \<open>recover()\<close> yields nil when the function is not panicking, and the deferred function of
  \<open>Run\<close> tells the two cases apart by that test. The panic values of the model are the
  non-nil ones: \<open>panic(nil)\<close>, which current Go turns into a run-time error value and older
  Go let \<open>recover()\<close> report as nil, is left out.
\<close>

datatype panic_value = PanicString string | NilDereference

datatype event = WriteHeader nat | Write string

record exchange =
  response :: "event list"
  ctx :: "string \<rightharpoonup> panic_value"

datatype 'a outcome = Returned 'a | Panicked panic_value 'a

text \<open>
  \<open>http.Handler\<close> is an interface value: nil (\<open>None\<close>) or an object with a \<open>ServeHTTP\<close>
  method. Calling a method on the nil interface is a run-time panic.
\<close>

type_synonym serve = "exchange \<Rightarrow> exchange outcome"
type_synonym http_Handler = "serve option"

definition ServeHTTP :: "http_Handler \<Rightarrow> exchange \<Rightarrow> exchange outcome" where
  "ServeHTTP h x = (case h of None \<Rightarrow> Panicked NilDereference x | Some f \<Rightarrow> f x)"

text \<open>\<open>context.Set(r, key, value)\<close> of the external context package.\<close>

definition context_Set :: "exchange \<Rightarrow> string \<Rightarrow> panic_value \<Rightarrow> exchange" where
  "context_Set x key v = x\<lparr>ctx := (ctx x)(key \<mapsto> v)\<rparr>"

definition ErrorPhase :: string where
  "ErrorPhase = ''error''"

definition RequestPhase :: string where
  "RequestPhase = ''request''"

definition FinalHandler :: serve where
  "FinalHandler x =
     Returned (x\<lparr>response := response x @ [WriteHeader 502, Write ''vinxi: cannot route request'']\<rparr>)"

definition FinalErrorHandler :: serve where
  "FinalErrorHandler x =
     Returned (x\<lparr>response := response x @ [WriteHeader 500, Write ''vinxi: internal server error'']\<rparr>)"

section \<open>adapter.go\<close>

text \<open>
  \<open>MiddlewareFunc\<close> is \<open>func(http.Handler) http.Handler\<close>. Applying one runs code of the
  middleware's author, which may panic instead of returning the wrapped handler.
\<close>

type_synonym MiddlewareFunc = "http_Handler \<Rightarrow> panic_value + http_Handler"
type_synonym MiddlewareHandlerFunc = "http_Handler \<Rightarrow> panic_value + serve"
type_synonym HandlerFuncNext = "exchange \<Rightarrow> http_Handler \<Rightarrow> exchange outcome"
type_synonym HandlerFunc = serve

definition adaptHandlerFunc :: "HandlerFunc \<Rightarrow> MiddlewareFunc" where
  "adaptHandlerFunc fn = (\<lambda>h. Inr (Some fn))"

definition adaptMiddlewareHandlerFunc :: "MiddlewareHandlerFunc \<Rightarrow> MiddlewareFunc" where
  "adaptMiddlewareHandlerFunc fn =
     (\<lambda>h. case fn h of Inl re \<Rightarrow> Inl re | Inr f \<Rightarrow> Inr (Some f))"

definition adaptHandlerFuncNext :: "HandlerFuncNext \<Rightarrow> MiddlewareFunc" where
  "adaptHandlerFuncNext fn = (\<lambda>h. Inr (Some (\<lambda>x. fn x h)))"

definition adaptHandler :: "HandlerFuncNext \<Rightarrow> MiddlewareFunc" where
  "adaptHandler fn = (\<lambda>h. Inr (Some (\<lambda>x. fn x h)))"

definition adaptNativeHandler :: "serve \<Rightarrow> MiddlewareFunc" where
  "adaptNativeHandler fn = (\<lambda>h. Inr (Some fn))"

section \<open>The priority stack\<close>

text \<open>
  The file that declares \<open>Priority\<close>, its constant \<open>Normal\<close>, \<open>Stack\<close>, \<open>Stack.Push\<close> and
  \<open>Stack.Join\<close> is not among the sources; \<open>layer.go\<close> only calls them.
\<close>

text \<open>
  Modelled from the spec: the type \<open>Priority\<close>, "an ordinal value attached to a handler at
  registration time". The spec gives the constant \<open>Normal\<close> no value, so \<open>Use\<close> below takes it
  as a parameter.
\<close>

type_synonym Priority = int

text \<open>
  Modelled from the spec: the type \<open>Stack\<close>, "an ordered container, keyed by nothing but
  priority+insertion order, holding normalized handlers for one phase".
\<close>

type_synonym Stack = "(Priority \<times> MiddlewareFunc) list"

text \<open>
  Modelled from the spec: \<open>Stack.Push\<close>, which "appends the normalized handler, tagged with
  its priority" and never fails.
\<close>

definition Push :: "Priority \<Rightarrow> MiddlewareFunc \<Rightarrow> Stack \<Rightarrow> Stack" where
  "Push order h st = st @ [(order, h)]"

text \<open>
  Modelled from the spec: \<open>Stack.Join\<close>, which "produces the complete execution order for the
  phase: primary key = priority, secondary key = insertion order (stable sort)", a lower
  priority value executing earlier, as "a pure, side-effect-free projection".
\<close>

definition Join :: "Stack \<Rightarrow> MiddlewareFunc list" where
  "Join st = map snd (sort_key fst st)"

section \<open>layer.go: the Layer\<close>

text \<open>
  \<open>Pool\<close> maps a phase to a \<open>*Stack\<close>. \<open>use\<close> reads the pointer once and pushes through it
  while handlers that register themselves may replace the pool in between, so the model keeps
  the stacks in a store: \<open>stacks\<close> lists the \<open>Stack\<close> objects allocated so far and a pointer is
  an index into it. A phase that is absent from \<open>Pool\<close> reads as the nil pointer.
  \<open>memo\<close> maps a phase to an \<open>http.Handler\<close>, which may be nil. The layers of the model are
  those made by \<open>New\<close>, whose two maps are allocated.
\<close>

record Layer =
  finalHandler :: http_Handler
  memo :: "string \<rightharpoonup> http_Handler"
  Pool :: "string \<rightharpoonup> nat"
  stacks :: "Stack list"

definition New :: Layer where
  "New = \<lparr>finalHandler = Some FinalHandler, memo = Map.empty, Pool = Map.empty, stacks = []\<rparr>"

definition Flush :: "Layer \<Rightarrow> Layer" where
  "Flush s = s\<lparr>Pool := Map.empty\<rparr>"

definition UseFinalHandler :: "http_Handler \<Rightarrow> Layer \<Rightarrow> Layer" where
  "UseFinalHandler fn s = s\<lparr>finalHandler := fn\<rparr>"

subsection \<open>Values of type \<open>interface{}\<close>\<close>

text \<open>
  \<open>Use\<close> and \<open>AdaptFunc\<close> receive an \<open>interface{}\<close> and probe its dynamic type. A type
  assertion to a function type succeeds only when the dynamic type is that very (unnamed)
  function type, and such a type has no methods; an assertion to an interface succeeds when
  the dynamic type has the interface's methods. So a value is a function of one of the four
  function types that \<open>AdaptFunc\<close> names, or a value of any other type, of which only the
  method set matters: whether it has \<open>ServeHTTP\<close> (\<open>http.Handler\<close>), \<open>HandleHTTP\<close>
  (\<open>Handler\<close>) and \<open>Register\<close> (\<open>Registrable\<close>). A string, a number, the nil interface and
  a function of another type are objects without any of the three.

  A function value may be nil. A nil function of the first type is returned by \<open>AdaptFunc\<close> as
  it is, so it is kept apart. A nil function of the other three types is wrapped in a closure
  that panics once it calls it: that is a function that panics, which the function space has.
  \<open>Register\<close> receives the layer and may call any of its methods; the model takes it as any
  function on the layer that returns or panics.
\<close>

record method_set =
  ServeHTTP_method :: "serve option"
  HandleHTTP_method :: "HandlerFuncNext option"
  Register_method :: "(Layer \<Rightarrow> Layer outcome) option"

datatype any =
    FuncChain "MiddlewareFunc option"
  | FuncResult MiddlewareHandlerFunc
  | FuncNext HandlerFuncNext
  | FuncSimple HandlerFunc
  | Object method_set

text \<open>The type assertions \<open>v, ok := h.(T)\<close>: \<open>Some v\<close> when \<open>ok\<close>.\<close>

definition as_FuncChain :: "any \<Rightarrow> MiddlewareFunc option option" where
  "as_FuncChain h = (case h of FuncChain mw \<Rightarrow> Some mw | _ \<Rightarrow> None)"

definition as_FuncResult :: "any \<Rightarrow> MiddlewareHandlerFunc option" where
  "as_FuncResult h = (case h of FuncResult mw \<Rightarrow> Some mw | _ \<Rightarrow> None)"

definition as_FuncNext :: "any \<Rightarrow> HandlerFuncNext option" where
  "as_FuncNext h = (case h of FuncNext mw \<Rightarrow> Some mw | _ \<Rightarrow> None)"

definition as_FuncSimple :: "any \<Rightarrow> HandlerFunc option" where
  "as_FuncSimple h = (case h of FuncSimple mw \<Rightarrow> Some mw | _ \<Rightarrow> None)"

definition as_http_Handler :: "any \<Rightarrow> serve option" where
  "as_http_Handler h = (case h of Object m \<Rightarrow> ServeHTTP_method m | _ \<Rightarrow> None)"

definition as_Handler :: "any \<Rightarrow> HandlerFuncNext option" where
  "as_Handler h = (case h of Object m \<Rightarrow> HandleHTTP_method m | _ \<Rightarrow> None)"

definition as_Registrable :: "any \<Rightarrow> (Layer \<Rightarrow> Layer outcome) option" where
  "as_Registrable h = (case h of Object m \<Rightarrow> Register_method m | _ \<Rightarrow> None)"

text \<open>\<open>AdaptFunc\<close>: nil (\<open>None\<close>) is the unsupported signal.\<close>

definition AdaptFunc :: "any \<Rightarrow> MiddlewareFunc option" where
  "AdaptFunc h =
     (case as_FuncChain h of Some mw \<Rightarrow> mw | None \<Rightarrow>
     (case as_FuncResult h of Some mw \<Rightarrow> Some (adaptMiddlewareHandlerFunc mw) | None \<Rightarrow>
     (case as_FuncNext h of Some mw \<Rightarrow> Some (adaptHandlerFuncNext mw) | None \<Rightarrow>
     (case as_FuncSimple h of Some mw \<Rightarrow> Some (adaptHandlerFunc mw) | None \<Rightarrow>
     (case as_http_Handler h of Some mw \<Rightarrow> Some (adaptNativeHandler mw) | None \<Rightarrow>
     (case as_Handler h of Some mw \<Rightarrow> Some (adaptHandler mw) | None \<Rightarrow>
      None))))))"

subsection \<open>Registration\<close>

definition unsupported :: panic_value where
  "unsupported = PanicString ''vinxi: unsupported middleware interface''"

definition register :: "Layer \<Rightarrow> nat \<Rightarrow> Priority \<Rightarrow> any \<Rightarrow> Layer outcome" where
  "register layer stack priority handler =
     (case as_Registrable handler of
        Some r \<Rightarrow> r layer
      | None \<Rightarrow>
         (case AdaptFunc handler of
            None \<Rightarrow> Panicked unsupported layer
          | Some mw \<Rightarrow>
              Returned (layer\<lparr>stacks := (stacks layer)[stack := Push priority mw (stacks layer ! stack)]\<rparr>)))"

text \<open>The loop of \<open>use\<close> over its variadic argument; a panic leaves the loop.\<close>

fun use_loop :: "nat \<Rightarrow> Priority \<Rightarrow> any list \<Rightarrow> Layer \<Rightarrow> Layer outcome" where
  "use_loop stack priority [] s = Returned s"
| "use_loop stack priority (h # handler) s =
     (case register s stack priority h of
        Returned s' \<Rightarrow> use_loop stack priority handler s'
      | Panicked re s' \<Rightarrow> Panicked re s')"

text \<open>
  \<open>s.Pool[phase] = &Stack{}\<close>: the new stack is stored at the next free index, which is the
  pointer that \<open>use\<close> then reads back from the pool.
\<close>

definition new_stack :: "string \<Rightarrow> Layer \<Rightarrow> Layer" where
  "new_stack phase s = s\<lparr>Pool := (Pool s)(phase \<mapsto> length (stacks s)), stacks := stacks s @ [[]]\<rparr>"

definition use :: "string \<Rightarrow> Priority \<Rightarrow> any list \<Rightarrow> Layer \<Rightarrow> Layer outcome" where
  "use phase priority handler s =
     (let s1 = s\<lparr>memo := (memo s)(phase \<mapsto> None)\<rparr> in
      case Pool s1 phase of
        None \<Rightarrow> use_loop (length (stacks s1)) priority handler (new_stack phase s1)
      | Some stack \<Rightarrow> use_loop stack priority handler s1)"

definition Use :: "Priority \<Rightarrow> string \<Rightarrow> any list \<Rightarrow> Layer \<Rightarrow> Layer outcome" where
  "Use Normal phase handler s = use phase Normal handler s"

definition UsePriority :: "string \<Rightarrow> Priority \<Rightarrow> any list \<Rightarrow> Layer \<Rightarrow> Layer outcome" where
  "UsePriority phase priority handler s = use phase priority handler s"

subsection \<open>Run\<close>

text \<open>The read \<open>h, ok := s.memo[phase]\<close>: a missing key gives the zero value, nil.\<close>

definition memo_lookup :: "Layer \<Rightarrow> string \<Rightarrow> http_Handler \<times> bool" where
  "memo_lookup s phase = (case memo s phase of None \<Rightarrow> (None, False) | Some h \<Rightarrow> (h, True))"

text \<open>The loop \<open>for i := len(queue) - 1; i >= 0; i-- { h = queue[i](h) }\<close>.\<close>

function compose :: "MiddlewareFunc list \<Rightarrow> int \<Rightarrow> http_Handler \<Rightarrow> panic_value + http_Handler" where
  "compose queue i h =
     (if i \<ge> 0
      then (case (queue ! nat i) h of Inl re \<Rightarrow> Inl re | Inr h' \<Rightarrow> compose queue (i - 1) h')
      else Inr h)"
  by pat_completeness auto
termination
  by (relation "measure (\<lambda>(queue, i, h). nat (i + 1))") auto

definition served :: "Layer \<Rightarrow> exchange outcome \<Rightarrow> (Layer \<times> exchange) outcome" where
  "served s out = (case out of Returned x \<Rightarrow> Returned (s, x) | Panicked re x \<Rightarrow> Panicked re (s, x))"

text \<open>The body of \<open>Run\<close>, without the deferred function.\<close>

definition Run_body :: "Layer \<Rightarrow> string \<Rightarrow> exchange \<Rightarrow> http_Handler \<Rightarrow> (Layer \<times> exchange) outcome" where
  "Run_body s phase x h =
     (let (mh, ok) = memo_lookup s phase in
      if \<not> ok \<and> mh \<noteq> None then served s (ServeHTTP mh x)
      else
        let h = (if h = None then finalHandler s else h) in
        (case Pool s phase of
           None \<Rightarrow> served s (ServeHTTP h x)
         | Some stack \<Rightarrow>
            (let queue = Join (stacks s ! stack) in
             case compose queue (int (length queue) - 1) h of
               Inl re \<Rightarrow> Panicked re (s, x)
             | Inr h' \<Rightarrow> served (s\<lparr>memo := (memo s)(phase \<mapsto> h')\<rparr>) (ServeHTTP h' x))))"

text \<open>
  \<open>Run\<close> with its deferred function: for the phase \<open>"error"\<close> it returns at once, so a panic
  of the body goes on to the caller; for any other phase it recovers the panic, stores it in
  the context and runs the error phase, whose outcome (a panic too) is the caller's.
\<close>

function Run :: "Layer \<Rightarrow> string \<Rightarrow> exchange \<Rightarrow> http_Handler \<Rightarrow> (Layer \<times> exchange) outcome" where
  "Run s phase x h =
     (case Run_body s phase x h of
        Returned r \<Rightarrow> Returned r
      | Panicked re (s', x') \<Rightarrow>
          if phase = ''error'' then Panicked re (s', x')
          else Run s' ''error'' (context_Set x' ''error'' re) (Some FinalErrorHandler))"
  by pat_completeness auto
termination
  by (relation "measure (\<lambda>(s, phase, x, h). if phase = ''error'' then 0 else 1)") auto

declare Run.simps [simp del]
declare compose.simps [simp del]

section \<open>An earlier revision of the registration\<close>

text \<open>
  One source file is an earlier revision of \<open>layer.go\<close>. Its \<open>Run\<close>, \<open>Flush\<close> and
  \<open>UseFinalHandler\<close> are the same text as above (its default handlers write other
  messages). Its \<open>Use\<close> and \<open>UsePriority\<close> call a method
  \<open>register\<close> that has the loop body inline, asserts the interface under the name \<open>Plugin\<close>
  and panics with another message. The declaration of \<open>Plugin\<close> is not among the sources;
  by the call \<open>mw.Register(s)\<close> it is the interface of the values with a \<open>Register\<close> method,
  as \<open>Registrable\<close> is.
\<close>

definition unsupported_v0 :: panic_value where
  "unsupported_v0 = PanicString ''vinci: unsupported middleware interface''"

fun Layer_register_loop :: "nat \<Rightarrow> Priority \<Rightarrow> any list \<Rightarrow> Layer \<Rightarrow> Layer outcome" where
  "Layer_register_loop pool priority [] s = Returned s"
| "Layer_register_loop pool priority (h # handler) s =
     (case as_Registrable h of
        Some mw \<Rightarrow>
          (case mw s of
             Returned s' \<Rightarrow> Layer_register_loop pool priority handler s'
           | Panicked re s' \<Rightarrow> Panicked re s')
      | None \<Rightarrow>
          (case AdaptFunc h of
             None \<Rightarrow> Panicked unsupported_v0 s
           | Some mw \<Rightarrow>
               Layer_register_loop pool priority handler
                 (s\<lparr>stacks := (stacks s)[pool := Push priority mw (stacks s ! pool)]\<rparr>)))"

definition Layer_register :: "string \<Rightarrow> Priority \<Rightarrow> any list \<Rightarrow> Layer \<Rightarrow> Layer outcome" where
  "Layer_register phase priority handler s =
     (let s1 = s\<lparr>memo := (memo s)(phase \<mapsto> None)\<rparr> in
      case Pool s1 phase of
        None \<Rightarrow> Layer_register_loop (length (stacks s1)) priority handler (new_stack phase s1)
      | Some pool \<Rightarrow> Layer_register_loop pool priority handler s1)"

section \<open>Notions used to state the properties\<close>

text \<open>
  One step of the right-to-left composition: a middleware wraps the handler accumulated so
  far, unless an earlier application has already panicked.
\<close>

definition wrap :: "MiddlewareFunc \<Rightarrow> panic_value + http_Handler \<Rightarrow> panic_value + http_Handler" where
  "wrap mw acc = (case acc of Inl re \<Rightarrow> Inl re | Inr h \<Rightarrow> mw h)"

text \<open>The terminal of a \<open>Run\<close>: the handler supplied, or the layer's final handler for nil.\<close>

definition terminal :: "Layer \<Rightarrow> http_Handler \<Rightarrow> http_Handler" where
  "terminal s h = (if h = None then finalHandler s else h)"

text \<open>The entries registered in a phase: those of its stack, none without a stack.\<close>

definition phase_stack :: "Layer \<Rightarrow> string \<Rightarrow> Stack" where
  "phase_stack s phase = (case Pool s phase of None \<Rightarrow> [] | Some a \<Rightarrow> stacks s ! a)"


text \<open>The state an outcome leaves behind, returned or panicked.\<close>

definition state_of :: "'a outcome \<Rightarrow> 'a" where
  "state_of out = (case out of Returned a \<Rightarrow> a | Panicked re a \<Rightarrow> a)"

definition panicked :: "'a outcome \<Rightarrow> bool" where
  "panicked out = (case out of Returned a \<Rightarrow> False | Panicked re a \<Rightarrow> True)"

text \<open>
  What \<open>use\<close> does to the layer before it looks at any handler: it sets the memo entry of
  the phase to nil and creates the phase's stack when there is none.
\<close>

definition prepared :: "string \<Rightarrow> Layer \<Rightarrow> Layer" where
  "prepared phase s =
     (let s1 = s\<lparr>memo := (memo s)(phase \<mapsto> None)\<rparr> in
      case Pool s1 phase of None \<Rightarrow> new_stack phase s1 | Some stack \<Rightarrow> s1)"

text \<open>A value has one of the six shapes of the adapter when one of its six assertions holds.\<close>

definition of_six_shapes :: "any \<Rightarrow> bool" where
  "of_six_shapes h =
     (as_FuncChain h \<noteq> None \<or> as_FuncResult h \<noteq> None \<or> as_FuncNext h \<noteq> None \<or>
      as_FuncSimple h \<noteq> None \<or> as_http_Handler h \<noteq> None \<or> as_Handler h \<noteq> None)"




subsection \<open>Sample handlers\<close>

definition blank :: exchange where
  "blank = \<lparr>response = [], ctx = Map.empty\<rparr>"

text \<open>A handler that writes its name and returns.\<close>

definition writes :: "string \<Rightarrow> serve" where
  "writes n x = Returned (x\<lparr>response := response x @ [Write n]\<rparr>)"

text \<open>A continuation-style handler that writes its name and calls the next handler.\<close>

definition writes_next :: "string \<Rightarrow> HandlerFuncNext" where
  "writes_next n x h = ServeHTTP h (x\<lparr>response := response x @ [Write n]\<rparr>)"

text \<open>A handler that writes and then panics.\<close>

definition boom :: serve where
  "boom x = Panicked (PanicString ''boom'') (x\<lparr>response := response x @ [Write ''boom'']\<rparr>)"

text \<open>A value of no supported shape, such as a string: an object with none of the methods.\<close>

definition a_string :: any where
  "a_string = Object \<lparr>ServeHTTP_method = None, HandleHTTP_method = None, Register_method = None\<rparr>"


text \<open>
  A plugin after the example in the comment of \<open>Registrable\<close>: its \<open>Register\<close> registers a
  handler of its own in the request phase (at priority 0).
\<close>

definition plugin :: any where
  "plugin =
     Object \<lparr>ServeHTTP_method = None, HandleHTTP_method = None,
             Register_method = Some (Use 0 ''request'' [FuncSimple (writes ''plugged'')])\<rparr>"

text \<open>A plugin whose \<open>Register\<close> does nothing.\<close>

definition idle_plugin :: any where
  "idle_plugin =
     Object \<lparr>ServeHTTP_method = Some (writes ''native''), HandleHTTP_method = None,
             Register_method = Some Returned\<rparr>"

text \<open>A value with a \<open>Register\<close> method that does nothing, and no other method.\<close>

definition register_only :: any where
  "register_only =
     Object \<lparr>ServeHTTP_method = None, HandleHTTP_method = None, Register_method = Some Returned\<rparr>"


subsection \<open>Sample layers\<close>

text \<open>A new layer after \<open>s.use("request", 0, a)\<close>, and after \<open>s.use("request", 0, a, b)\<close>.\<close>

definition one_handler :: Layer where
  "one_handler = state_of (use ''request'' 0 [FuncNext (writes_next ''a'')] New)"

definition two_handlers :: Layer where
  "two_handlers =
     state_of (use ''request'' 0 [FuncNext (writes_next ''a''), FuncNext (writes_next ''b'')] New)"


text \<open>
  A new layer with three handlers in the request phase, the second of which panics and the
  third of which is never reached.
\<close>

definition panicking_chain :: Layer where
  "panicking_chain =
     state_of (use ''request'' 0
       [FuncNext (writes_next ''a''), FuncSimple boom, FuncNext (writes_next ''b'')] New)"

text \<open>The layer \<open>one_handler\<close> after \<open>s.Run("request", w, r, t1)\<close>.\<close>

definition after_run :: Layer where
  "after_run = fst (state_of (Run one_handler ''request'' blank (Some (writes ''t1''))))"

section \<open>Properties\<close>

subsection \<open>Auxiliary facts\<close>

lemma memo_lookup_miss:
  "(case memo_lookup s phase of (mh, ok) \<Rightarrow> \<not> ok \<and> mh \<noteq> None) = False"
  by (simp add: memo_lookup_def split: option.split)

lemma wrap_Inr: "wrap mw (Inr h) = mw h"
  by (simp add: wrap_def)

lemma foldr_wrap_Inl: "foldr wrap queue (Inl re) = Inl re"
  by (induction queue) (simp_all add: wrap_def)

lemma panicked_simps: "panicked (Panicked re a)" "\<not> panicked (Returned a)"
  by (simp_all add: panicked_def)

text \<open>The loop of \<open>Run\<close>, started at index \<open>k - 1\<close>, folds the first \<open>k\<close> middlewares.\<close>

lemma compose_take:
  "k \<le> length queue \<Longrightarrow> compose queue (int k - 1) h = foldr wrap (take k queue) (Inr h)"
proof (induction k arbitrary: h)
  case 0
  then show ?case by (simp add: compose.simps)
next
  case (Suc k)
  then have k: "k < length queue" by simp
  have unf: "compose queue (int (Suc k) - 1) h =
      (case (queue ! k) h of Inl re \<Rightarrow> Inl re | Inr h' \<Rightarrow> compose queue (int k - 1) h')"
    by (subst compose.simps) (simp split: sum.split)
  have "take (Suc k) queue = take k queue @ [queue ! k]"
    using k by (simp add: take_Suc_conv_app_nth)
  then have fold: "foldr wrap (take (Suc k) queue) (Inr h) = foldr wrap (take k queue) ((queue ! k) h)"
    by (simp add: wrap_Inr)
  show ?case
  proof (cases "(queue ! k) h")
    case (Inl re)
    then show ?thesis unfolding unf fold by (simp add: foldr_wrap_Inl)
  next
    case (Inr h')
    then show ?thesis unfolding unf fold using Suc.IH [of h'] k by simp
  qed
qed

lemma compose_foldr: "compose queue (int (length queue) - 1) h = foldr wrap queue (Inr h)"
  using compose_take [of "length queue" queue h] by simp

lemma Join_Nil: "Join [] = []"
  by (simp add: Join_def)








text \<open>
  What the body of \<open>Run\<close> does on any layer: it composes the phase's queue around the
  terminal and serves the result; the memo is written when the phase has a stack. The branch
  that serves the memoized handler is never taken.
\<close>

lemma Run_body_chain:
  "Run_body s phase x h =
     (case foldr wrap (Join (phase_stack s phase)) (Inr (terminal s h)) of
        Inl re \<Rightarrow> Panicked re (s, x)
      | Inr c \<Rightarrow>
          served (case Pool s phase of None \<Rightarrow> s | Some a \<Rightarrow> s\<lparr>memo := (memo s)(phase \<mapsto> c)\<rparr>)
            (ServeHTTP c x))"
proof -
  obtain mh ok where l: "memo_lookup s phase = (mh, ok)" by (cases "memo_lookup s phase")
  with memo_lookup_miss [of s phase] have miss: "\<not> (\<not> ok \<and> mh \<noteq> None)" by simp
  show ?thesis
  proof (cases "Pool s phase")
    case None
    then show ?thesis using miss l
      by (auto simp: Run_body_def phase_stack_def terminal_def Join_Nil)
  next
    case (Some a)
    then show ?thesis using miss l
      by (auto simp: Run_body_def phase_stack_def terminal_def Let_def compose_foldr split: sum.split)
  qed
qed

lemma Run_error: "Run s ''error'' x h = Run_body s ''error'' x h"
  by (subst Run.simps) (simp split: outcome.split prod.split)

lemma Run_returned: "Run_body s phase x h = Returned r \<Longrightarrow> Run s phase x h = Returned r"
  by (subst Run.simps) simp

lemma Run_trap:
  "phase \<noteq> ''error'' \<Longrightarrow> Run_body s phase x h = Panicked re (s', x') \<Longrightarrow>
   Run s phase x h = Run s' ''error'' (context_Set x' ''error'' re) (Some FinalErrorHandler)"
  by (subst Run.simps) simp





text \<open>Registration: \<open>use\<close> prepares the layer and then loops through the stack pointer.\<close>

lemma use_eq:
  "use phase priority handler s =
     use_loop (case Pool s phase of None \<Rightarrow> length (stacks s) | Some a \<Rightarrow> a) priority handler
       (prepared phase s)"
  by (simp add: use_def prepared_def Let_def split: option.split)

lemma Layer_register_eq:
  "Layer_register phase priority handler s =
     Layer_register_loop (case Pool s phase of None \<Rightarrow> length (stacks s) | Some a \<Rightarrow> a) priority
       handler (prepared phase s)"
  by (simp add: Layer_register_def prepared_def Let_def split: option.split)

lemma AdaptFunc_unsupported: "\<not> of_six_shapes h \<Longrightarrow> AdaptFunc h = None"
  by (simp add: of_six_shapes_def AdaptFunc_def)

lemma register_unsupported:
  "as_Registrable h = None \<Longrightarrow> AdaptFunc h = None \<Longrightarrow>
   register s stack priority h = Panicked unsupported s"
  by (simp add: register_def)


text \<open>A loop that meets an unsupported handler panics, there or earlier.\<close>

lemma use_loop_unsupported:
  "h \<in> set handler \<Longrightarrow> as_Registrable h = None \<Longrightarrow> AdaptFunc h = None \<Longrightarrow>
   panicked (use_loop stack priority handler s)"
proof (induction handler arbitrary: s)
  case Nil
  then show ?case by simp
next
  case (Cons g handler)
  show ?case
  proof (cases "register s stack priority g")
    case (Panicked re s')
    then show ?thesis by (simp add: panicked_simps)
  next
    case (Returned s')
    with Cons.prems have "g \<noteq> h" by (auto simp: register_unsupported)
    with Cons.prems have "h \<in> set handler" by simp
    with Cons.IH [of s'] Cons.prems Returned show ?thesis by simp
  qed
qed

lemma Layer_register_loop_unsupported:
  "h \<in> set handler \<Longrightarrow> as_Registrable h = None \<Longrightarrow> AdaptFunc h = None \<Longrightarrow>
   panicked (Layer_register_loop pool priority handler s)"
proof (induction handler arbitrary: s)
  case Nil
  then show ?case by simp
next
  case (Cons g handler)
  show ?case
  proof (cases "g = h")
    case True
    with Cons.prems show ?thesis by (simp add: panicked_simps)
  next
    case False
    with Cons.prems have "h \<in> set handler" by simp
    with Cons.IH Cons.prems have "panicked (Layer_register_loop pool priority handler t)" for t
      by simp
    then show ?thesis by (simp add: panicked_simps split: option.split outcome.split)
  qed
qed

text \<open>The loops go through their argument list from the front.\<close>

lemma use_loop_append:
  "use_loop a p (xs @ ys) t =
     (case use_loop a p xs t of
        Returned t' \<Rightarrow> use_loop a p ys t'
      | Panicked re t' \<Rightarrow> Panicked re t')"
  by (induction xs arbitrary: t) (simp_all split: outcome.split)

lemma Layer_register_loop_append:
  "Layer_register_loop a p (xs @ ys) t =
     (case Layer_register_loop a p xs t of
        Returned t' \<Rightarrow> Layer_register_loop a p ys t'
      | Panicked re t' \<Rightarrow> Panicked re t')"
  by (induction xs arbitrary: t) (simp_all split: outcome.split option.split)




text \<open>After \<open>Flush\<close>, the body of \<open>Run\<close> serves the terminal alone, whatever the memo holds.\<close>

lemma Run_after_Flush:
  "Run_body (Flush s) phase x h = served (Flush s) (ServeHTTP (terminal s h) x)"
  by (simp add: Run_body_chain phase_stack_def Join_Nil Flush_def terminal_def)

subsection \<open>Evaluating the samples\<close>

lemmas sample_defs = blank_def writes_def writes_next_def boom_def

lemmas as_defs = as_FuncChain_def as_FuncResult_def as_FuncNext_def as_FuncSimple_def
  as_http_Handler_def as_Handler_def

lemmas layer_defs = New_def use_def new_stack_def register_def AdaptFunc_def as_defs
  as_Registrable_def Push_def state_of_def

lemmas run_defs = Run_body_def memo_lookup_def served_def ServeHTTP_def Join_def

lemma one_handler_eq:
  "one_handler = \<lparr>finalHandler = Some FinalHandler, memo = [''request'' \<mapsto> None],
      Pool = [''request'' \<mapsto> 0],
      stacks = [[(0, adaptHandlerFuncNext (writes_next ''a''))]]\<rparr>"
  by (simp add: one_handler_def layer_defs)

lemma two_handlers_eq:
  "two_handlers = \<lparr>finalHandler = Some FinalHandler, memo = [''request'' \<mapsto> None],
      Pool = [''request'' \<mapsto> 0],
      stacks = [[(0, adaptHandlerFuncNext (writes_next ''a'')),
                 (0, adaptHandlerFuncNext (writes_next ''b''))]]\<rparr>"
  by (simp add: two_handlers_def layer_defs)


lemma panicking_chain_eq:
  "panicking_chain = \<lparr>finalHandler = Some FinalHandler, memo = [''request'' \<mapsto> None],
      Pool = [''request'' \<mapsto> 0],
      stacks = [[(0, adaptHandlerFuncNext (writes_next ''a'')), (0, adaptHandlerFunc boom),
                 (0, adaptHandlerFuncNext (writes_next ''b''))]]\<rparr>"
  by (simp add: panicking_chain_def layer_defs)

lemma Run_one_handler:
  "Run one_handler ''request'' blank (Some (writes ''t1'')) =
     Returned (one_handler\<lparr>memo := [''request'' \<mapsto> Some (\<lambda>x. writes_next ''a'' x (Some (writes ''t1'')))]\<rparr>,
               \<lparr>response = [Write ''a'', Write ''t1''], ctx = Map.empty\<rparr>)"
  by (rule Run_returned)
     (simp add: Run_body_chain phase_stack_def one_handler_eq Join_def wrap_def terminal_def
        adaptHandlerFuncNext_def served_def ServeHTTP_def sample_defs)

lemma after_run_eq:
  "after_run = \<lparr>finalHandler = Some FinalHandler,
      memo = [''request'' \<mapsto> Some (\<lambda>x. writes_next ''a'' x (Some (writes ''t1'')))],
      Pool = [''request'' \<mapsto> 0],
      stacks = [[(0, adaptHandlerFuncNext (writes_next ''a''))]]\<rparr>"
  unfolding after_run_def Run_one_handler by (simp add: state_of_def one_handler_eq)

subsection \<open>The memo\<close>

text \<open>
  C1. The claim is that a \<open>Run\<close> on a phase whose chain an earlier \<open>Run\<close> has memoized, with
  no registration in between, serves the memoized chain and does not compile again. The code
  does not: the test \<open>!ok && h != nil\<close> on the memo is false on every layer (a missing key
  reads as nil), so \<open>Run\<close> composes the chain on each call. On the layer \<open>after_run\<close> the memo
  holds the chain compiled around the terminal \<open>t1\<close>, and serving it would write \<open>a\<close>, \<open>t1\<close>;
  a second \<open>Run\<close> with the terminal \<open>t2\<close> writes \<open>a\<close>, \<open>t2\<close> and memoizes a newly composed
  chain.
\<close>

theorem memo_never_served:
  "memo_lookup after_run ''request'' = (Some (\<lambda>x. writes_next ''a'' x (Some (writes ''t1''))), True) \<and>
   ServeHTTP (fst (memo_lookup after_run ''request'')) blank =
     Returned \<lparr>response = [Write ''a'', Write ''t1''], ctx = Map.empty\<rparr> \<and>
   Run after_run ''request'' blank (Some (writes ''t2'')) =
     Returned (after_run\<lparr>memo := [''request'' \<mapsto> Some (\<lambda>x. writes_next ''a'' x (Some (writes ''t2'')))]\<rparr>,
               \<lparr>response = [Write ''a'', Write ''t2''], ctx = Map.empty\<rparr>)"
proof -
  have m: "memo_lookup after_run ''request'' =
      (Some (\<lambda>x. writes_next ''a'' x (Some (writes ''t1''))), True)"
    by (simp add: memo_lookup_def after_run_eq)
  have s: "ServeHTTP (fst (memo_lookup after_run ''request'')) blank =
     Returned \<lparr>response = [Write ''a'', Write ''t1''], ctx = Map.empty\<rparr>"
    unfolding m by (simp add: ServeHTTP_def sample_defs)
  have r: "Run after_run ''request'' blank (Some (writes ''t2'')) =
     Returned (after_run\<lparr>memo := [''request'' \<mapsto> Some (\<lambda>x. writes_next ''a'' x (Some (writes ''t2'')))]\<rparr>,
               \<lparr>response = [Write ''a'', Write ''t2''], ctx = Map.empty\<rparr>)"
    by (rule Run_returned)
       (simp add: Run_body_chain phase_stack_def after_run_eq Join_def wrap_def terminal_def
          adaptHandlerFuncNext_def served_def ServeHTTP_def sample_defs)
  from m s r show ?thesis by blast
qed

text \<open>
  C8. The claim is that \<open>Flush\<close> discards the pool and clears every memo entry. The code
  replaces the pool only: on the layer \<open>after_run\<close>, whose memo holds the compiled chain of
  the request phase, \<open>Flush\<close> empties the pool and leaves the memo as it was, the chain still
  in it. (\<open>use\<close>, the other operation that changes a phase's stack, does reset the phase's
  memo entry. The entry that \<open>Flush\<close> leaves behind goes unnoticed by \<open>Run\<close> only because the
  memo is never served, see \<open>Run_after_Flush\<close>.)
\<close>

theorem Flush_keeps_memo:
  "Pool (Flush after_run) = Map.empty \<and>
   memo (Flush after_run) = memo after_run \<and>
   memo_lookup (Flush after_run) ''request'' =
     (Some (\<lambda>x. writes_next ''a'' x (Some (writes ''t1''))), True)"
  by (simp add: Flush_def memo_lookup_def after_run_eq)

subsection \<open>The failure trap\<close>

text \<open>
  C3. A \<open>Run\<close> on the error phase is not wrapped by the failure trap: whenever the body of
  \<open>Run\<close> panics in the phase \<open>"error"\<close> (while composing or serving the chain or its
  terminal), \<open>Run\<close> panics with the same value and leaves the same layer, response and context
  behind; nothing is recovered, stored in the context or redirected.
\<close>

theorem error_phase_not_trapped:
  "Run_body s ''error'' x h = Panicked re r \<Longrightarrow> Run s ''error'' x h = Panicked re r"
  by (simp add: Run_error)

theorem error_phase_not_trapped_witness:
  "Run_body New ''error'' blank (Some boom) =
     Panicked (PanicString ''boom'') (New, \<lparr>response = [Write ''boom''], ctx = Map.empty\<rparr>) \<and>
   Run New ''error'' blank (Some boom) =
     Panicked (PanicString ''boom'') (New, \<lparr>response = [Write ''boom''], ctx = Map.empty\<rparr>)"
proof -
  have b: "Run_body New ''error'' blank (Some boom) =
     Panicked (PanicString ''boom'') (New, \<lparr>response = [Write ''boom''], ctx = Map.empty\<rparr>)"
    by (simp add: run_defs New_def sample_defs)
  show ?thesis using b error_phase_not_trapped [OF b] by simp
qed

text \<open>
  C2. On a phase other than \<open>"error"\<close>, when the body of \<open>Run\<close> panics with the value
  \<open>re\<close>, \<open>Run\<close> is the \<open>Run\<close> of the error phase with \<open>FinalErrorHandler\<close> as terminal, on
  the layer and exchange as the panic left them and with \<open>re\<close> stored in the context under
  \<open>"error"\<close>. The panic is recovered once: that second \<open>Run\<close> is its body alone, without a
  trap of its own.
\<close>

theorem failure_trap:
  "phase \<noteq> ''error'' \<Longrightarrow> Run_body s phase x h = Panicked re (s', x') \<Longrightarrow>
   Run s phase x h = Run s' ''error'' (context_Set x' ''error'' re) (Some FinalErrorHandler) \<and>
   ctx (context_Set x' ''error'' re) ''error'' = Some re \<and>
   Run s' ''error'' (context_Set x' ''error'' re) (Some FinalErrorHandler) =
     Run_body s' ''error'' (context_Set x' ''error'' re) (Some FinalErrorHandler)"
  by (simp add: Run_trap Run_error context_Set_def)

theorem failure_trap_witness:
  "''request'' \<noteq> ''error'' \<and>
   Run_body panicking_chain ''request'' blank (Some (writes ''t'')) =
     Panicked (PanicString ''boom'')
       (panicking_chain\<lparr>memo := [''request'' \<mapsto> Some (\<lambda>x. writes_next ''a'' x (Some boom))]\<rparr>,
        \<lparr>response = [Write ''a'', Write ''boom''], ctx = Map.empty\<rparr>) \<and>
   Run panicking_chain ''request'' blank (Some (writes ''t'')) =
     Returned
       (panicking_chain\<lparr>memo := [''request'' \<mapsto> Some (\<lambda>x. writes_next ''a'' x (Some boom))]\<rparr>,
        \<lparr>response = [Write ''a'', Write ''boom'', WriteHeader 500, Write ''vinxi: internal server error''],
         ctx = [''error'' \<mapsto> PanicString ''boom'']\<rparr>)"
proof -
  have p: "''request'' \<noteq> ''error''" by simp
  have b: "Run_body panicking_chain ''request'' blank (Some (writes ''t'')) =
     Panicked (PanicString ''boom'')
       (panicking_chain\<lparr>memo := [''request'' \<mapsto> Some (\<lambda>x. writes_next ''a'' x (Some boom))]\<rparr>,
        \<lparr>response = [Write ''a'', Write ''boom''], ctx = Map.empty\<rparr>)"
    by (simp add: Run_body_chain phase_stack_def panicking_chain_eq Join_def wrap_def terminal_def
        adaptHandlerFuncNext_def adaptHandlerFunc_def served_def ServeHTTP_def sample_defs)
  show ?thesis using p b failure_trap [OF p b]
    by (simp add: Run_body_chain phase_stack_def panicking_chain_eq Join_def wrap_def terminal_def
        served_def ServeHTTP_def context_Set_def FinalErrorHandler_def)
qed

subsection \<open>Compiling the chain\<close>

text \<open>
  C4. For a phase whose stack joins to a non-empty queue \<open>q # qs\<close>, \<open>Run\<close> folds the queue
  from the right around the terminal: the last middleware wraps the terminal, each earlier
  one wraps what has been accumulated, and the chain that \<open>Run\<close> memoizes and serves is what
  the first middleware \<open>q\<close> returns for the composition of the rest, so \<open>q\<close> is the outermost
  handler and the one that is invoked. \<open>Run\<close> returns what that chain returns; a panic of the
  chain, or of a middleware that panics while wrapping, goes to the failure trap.
\<close>

theorem chain_composed_right_to_left:
  assumes "Pool s phase = Some a" and "Join (stacks s ! a) = q # qs"
  shows "Run s phase x h =
           (case foldr wrap (q # qs) (Inr (terminal s h)) of
              Inl re \<Rightarrow>
                if phase = ''error'' then Panicked re (s, x)
                else Run s ''error'' (context_Set x ''error'' re) (Some FinalErrorHandler)
            | Inr c \<Rightarrow>
                (case ServeHTTP c x of
                   Returned x' \<Rightarrow> Returned (s\<lparr>memo := (memo s)(phase \<mapsto> c)\<rparr>, x')
                 | Panicked re x' \<Rightarrow>
                     if phase = ''error'' then Panicked re (s\<lparr>memo := (memo s)(phase \<mapsto> c)\<rparr>, x')
                     else Run (s\<lparr>memo := (memo s)(phase \<mapsto> c)\<rparr>) ''error''
                            (context_Set x' ''error'' re) (Some FinalErrorHandler))) \<and>
         Run_body s phase x h =
           (case foldr wrap (q # qs) (Inr (terminal s h)) of
              Inl re \<Rightarrow> Panicked re (s, x)
            | Inr c \<Rightarrow> served (s\<lparr>memo := (memo s)(phase \<mapsto> c)\<rparr>) (ServeHTTP c x)) \<and>
         foldr wrap (q # qs) (Inr (terminal s h)) =
           (case foldr wrap qs (Inr (terminal s h)) of Inl re \<Rightarrow> Inl re | Inr rest \<Rightarrow> q rest)"
proof -
  have b: "Run_body s phase x h =
           (case foldr wrap (q # qs) (Inr (terminal s h)) of
              Inl re \<Rightarrow> Panicked re (s, x)
            | Inr c \<Rightarrow> served (s\<lparr>memo := (memo s)(phase \<mapsto> c)\<rparr>) (ServeHTTP c x))"
    using assms by (simp add: Run_body_chain phase_stack_def split: sum.split)
  have "Run s phase x h =
           (case foldr wrap (q # qs) (Inr (terminal s h)) of
              Inl re \<Rightarrow>
                if phase = ''error'' then Panicked re (s, x)
                else Run s ''error'' (context_Set x ''error'' re) (Some FinalErrorHandler)
            | Inr c \<Rightarrow>
                (case ServeHTTP c x of
                   Returned x' \<Rightarrow> Returned (s\<lparr>memo := (memo s)(phase \<mapsto> c)\<rparr>, x')
                 | Panicked re x' \<Rightarrow>
                     if phase = ''error'' then Panicked re (s\<lparr>memo := (memo s)(phase \<mapsto> c)\<rparr>, x')
                     else Run (s\<lparr>memo := (memo s)(phase \<mapsto> c)\<rparr>) ''error''
                            (context_Set x' ''error'' re) (Some FinalErrorHandler)))"
    by (subst Run.simps, subst b) (simp add: served_def split: sum.split outcome.split)
  with b show ?thesis by (simp add: wrap_def split: sum.split)
qed

theorem chain_composed_right_to_left_witness:
  "Pool two_handlers ''request'' = Some 0 \<and>
   Join (stacks two_handlers ! 0) =
     [adaptHandlerFuncNext (writes_next ''a''), adaptHandlerFuncNext (writes_next ''b'')] \<and>
   Run two_handlers ''request'' blank (Some (writes ''t'')) =
     Returned
       (two_handlers\<lparr>memo := [''request'' \<mapsto>
           Some (\<lambda>x. writes_next ''a'' x (Some (\<lambda>x. writes_next ''b'' x (Some (writes ''t'')))))]\<rparr>,
        \<lparr>response = [Write ''a'', Write ''b'', Write ''t''], ctx = Map.empty\<rparr>)"
proof -
  have p: "Pool two_handlers ''request'' = Some 0" by (simp add: two_handlers_eq)
  have j: "Join (stacks two_handlers ! 0) =
     [adaptHandlerFuncNext (writes_next ''a''), adaptHandlerFuncNext (writes_next ''b'')]"
    by (simp add: two_handlers_eq Join_def)
  show ?thesis
    using p j chain_composed_right_to_left [OF p j, of blank "Some (writes ''t'')"]
    by (simp add: wrap_def terminal_def adaptHandlerFuncNext_def ServeHTTP_def
        sample_defs two_handlers_eq)
qed

text \<open>
  C9, as the claim states it, fails: on a new layer the request phase has no stack, and a
  \<open>Run\<close> whose terminal panics executes that terminal and then, through the failure trap,
  \<open>FinalErrorHandler\<close> as well, so its outcome is not that of the terminal alone.
\<close>

theorem empty_phase_counterexample:
  "Pool New ''request'' = None \<and>
   Run New ''request'' blank (Some boom) =
     Returned (New, \<lparr>response = [Write ''boom'', WriteHeader 500, Write ''vinxi: internal server error''],
                      ctx = [''error'' \<mapsto> PanicString ''boom'']\<rparr>) \<and>
   Run New ''request'' blank (Some boom) \<noteq> served New (ServeHTTP (terminal New (Some boom)) blank)"
proof -
  have b: "Run_body New ''request'' blank (Some boom) =
     Panicked (PanicString ''boom'') (New, \<lparr>response = [Write ''boom''], ctx = Map.empty\<rparr>)"
    by (simp add: run_defs New_def sample_defs)
  have r: "Run New ''request'' blank (Some boom) =
     Returned (New, \<lparr>response = [Write ''boom'', WriteHeader 500, Write ''vinxi: internal server error''],
                      ctx = [''error'' \<mapsto> PanicString ''boom'']\<rparr>)"
    using Run_trap [OF _ b]
    by (simp add: Run_error run_defs New_def context_Set_def FinalErrorHandler_def)
  show ?thesis unfolding r
    by (simp add: New_def served_def ServeHTTP_def terminal_def sample_defs)
qed

text \<open>
  C9, amended. For a phase without a stack, the body of \<open>Run\<close> invokes exactly one
  handler, the terminal (the one supplied, or the layer's final handler for nil): its outcome
  is the outcome of that one call and the layer is unchanged. When the phase is \<open>"error"\<close> or
  the terminal returns without panicking, this is the whole of \<open>Run\<close> and no other handler
  executes.
\<close>

theorem empty_phase_runs_terminal:
  assumes "Pool s phase = None"
  shows "Run_body s phase x h = served s (ServeHTTP (terminal s h) x) \<and>
         (phase = ''error'' \<or> \<not> panicked (ServeHTTP (terminal s h) x) \<longrightarrow>
            Run s phase x h = served s (ServeHTTP (terminal s h) x))"
proof -
  have b: "Run_body s phase x h = served s (ServeHTTP (terminal s h) x)"
    using assms by (simp add: Run_body_chain phase_stack_def Join_Nil)
  have "Run s phase x h = served s (ServeHTTP (terminal s h) x)"
    if "phase = ''error'' \<or> \<not> panicked (ServeHTTP (terminal s h) x)"
  proof (cases "phase = ''error''")
    case True
    then show ?thesis using b by (simp add: Run_error)
  next
    case False
    with that obtain x' where "ServeHTTP (terminal s h) x = Returned x'"
      by (cases "ServeHTTP (terminal s h) x") (auto simp: panicked_def)
    then show ?thesis using b Run_returned [of s phase x h "(s, x')"] by (simp add: served_def)
  qed
  with b show ?thesis by blast
qed

theorem empty_phase_runs_terminal_witness:
  "Pool New ''request'' = None \<and>
   \<not> panicked (ServeHTTP (terminal New (Some (writes ''t''))) blank) \<and>
   \<not> panicked (ServeHTTP (terminal New None) blank) \<and>
   Run New ''request'' blank (Some (writes ''t'')) =
     Returned (New, \<lparr>response = [Write ''t''], ctx = Map.empty\<rparr>) \<and>
   Run New ''request'' blank None =
     Returned (New, \<lparr>response = [WriteHeader 502, Write ''vinxi: cannot route request''], ctx = Map.empty\<rparr>)"
proof -
  have p: "Pool New ''request'' = None" by (simp add: New_def)
  have t: "\<not> panicked (ServeHTTP (terminal New (Some (writes ''t''))) blank)"
    by (simp add: panicked_def ServeHTTP_def terminal_def sample_defs)
  have n: "\<not> panicked (ServeHTTP (terminal New None) blank)"
    by (simp add: panicked_def ServeHTTP_def terminal_def New_def FinalHandler_def)
  show ?thesis
    using p t n empty_phase_runs_terminal [OF p, of blank "Some (writes ''t'')"]
      empty_phase_runs_terminal [OF p, of blank None]
    by (simp add: served_def ServeHTTP_def terminal_def New_def FinalHandler_def sample_defs)
qed




subsection \<open>The adapter\<close>




subsection \<open>Registration\<close>

text \<open>
  C6, as the claim states it, fails: a value whose only method is \<open>Register\<close> has none of
  the six shapes (the adapter returns nil for it), and \<open>Use\<close>, \<open>UsePriority\<close> and the
  \<open>register\<close> method of the earlier revision accept it and return: they call its \<open>Register\<close>
  and never ask the adapter.
\<close>

theorem register_only_counterexample:
  "\<not> of_six_shapes register_only \<and>
   AdaptFunc register_only = None \<and>
   Use 0 ''request'' [register_only] New = Returned (prepared ''request'' New) \<and>
   UsePriority ''request'' 0 [register_only] New = Returned (prepared ''request'' New) \<and>
   Layer_register ''request'' 0 [register_only] New = Returned (prepared ''request'' New)"
  by (simp add: of_six_shapes_def as_defs register_only_def AdaptFunc_def Use_def UsePriority_def
      use_eq Layer_register_eq register_def as_Registrable_def New_def)

text \<open>
  C6, amended. A call of \<open>Use\<close> or \<open>UsePriority\<close> among whose handlers is one that has no
  \<open>Register\<close> method and none of the six shapes panics: it does not return, so nothing is
  handed back to the caller and no handler is dropped in silence. Called with that handler
  alone, it panics with the message of the source and has pushed nothing. The same holds for
  the \<open>register\<close> method of the earlier revision.
\<close>

theorem unsupported_handler_panics:
  assumes "h \<in> set handler" and "as_Registrable h = None" and "\<not> of_six_shapes h"
  shows "panicked (Use Normal phase handler s) \<and>
         panicked (UsePriority phase priority handler s) \<and>
         panicked (Layer_register phase priority handler s) \<and>
         Use Normal phase [h] s = Panicked unsupported (prepared phase s) \<and>
         UsePriority phase priority [h] s = Panicked unsupported (prepared phase s) \<and>
         Layer_register phase priority [h] s = Panicked unsupported_v0 (prepared phase s)"
  using assms
  by (simp add: Use_def UsePriority_def use_eq Layer_register_eq use_loop_unsupported
      Layer_register_loop_unsupported AdaptFunc_unsupported register_unsupported)

theorem unsupported_handler_panics_witness:
  "a_string \<in> set [FuncSimple (writes ''a''), a_string] \<and> as_Registrable a_string = None \<and>
   \<not> of_six_shapes a_string \<and>
   panicked (Use 0 ''request'' [FuncSimple (writes ''a''), a_string] New) \<and>
   UsePriority ''request'' 1 [a_string] New =
     Panicked (PanicString ''vinxi: unsupported middleware interface'')
       \<lparr>finalHandler = Some FinalHandler, memo = [''request'' \<mapsto> None],
        Pool = [''request'' \<mapsto> 0], stacks = [[]]\<rparr>"
proof -
  have m: "a_string \<in> set [FuncSimple (writes ''a''), a_string]" by simp
  have r: "as_Registrable a_string = None" by (simp add: as_Registrable_def a_string_def)
  have u: "\<not> of_six_shapes a_string"
    by (simp add: of_six_shapes_def a_string_def as_defs)
  show ?thesis
    using m r u unsupported_handler_panics [OF m r u, of 0 "''request''" New 1]
    by (simp add: unsupported_def prepared_def New_def new_stack_def)
qed

text \<open>
  C10, as the claim states it, fails: the plugin of the comment of \<open>Registrable\<close> registers
  a handler of its own in the request phase, so after \<open>Use\<close> with that plugin alone the stack
  of the request phase holds one entry.
\<close>

theorem plugin_counterexample:
  "as_Registrable plugin \<noteq> None \<and>
   \<not> panicked (Use 0 ''request'' [plugin] New) \<and>
   phase_stack (state_of (Use 0 ''request'' [plugin] New)) ''request'' =
     [(0, adaptHandlerFunc (writes ''plugged''))]"
  by (simp add: plugin_def Use_def layer_defs panicked_def phase_stack_def)

text \<open>
  C10, amended. For a value with a \<open>Register\<close> method \<open>r\<close>, \<open>register\<close> is one call of \<open>r\<close>
  on the layer and nothing else, and so are \<open>Use\<close>, \<open>UsePriority\<close> and the \<open>register\<close> method
  of the earlier revision with that value alone, on the layer as prepared (memo entry nil,
  stack created). The adapter is not run on the value and the value is not pushed: the
  adapter has no effect of its own, so this shows in the outcome, which is that of \<open>r\<close>
  whatever the value's other methods are, that is, whether the adapter would turn the value
  into a middleware or reject it (and make \<open>register\<close> panic). Within a longer argument list
  the loop calls \<open>r\<close> once when it reaches the value and goes on with the rest. \<open>r\<close> receives
  the phase's stack with the entries it had before, so the stack is afterwards as \<open>r\<close> leaves
  it: when \<open>r\<close> does not change it, it has the entries it had before the call, none for a new
  phase.
\<close>

theorem registrable_registers_itself:
  assumes "as_Registrable v = Some r"
  shows "Use Normal phase [v] s = r (prepared phase s) \<and>
         UsePriority phase priority [v] s = r (prepared phase s) \<and>
         Layer_register phase priority [v] s = r (prepared phase s) \<and>
         register t a priority v = r t \<and>
         (as_Registrable v' = Some r \<longrightarrow>
            register t a priority v' = register t a priority v \<and>
            Use Normal phase [v'] s = Use Normal phase [v] s \<and>
            UsePriority phase priority [v'] s = UsePriority phase priority [v] s) \<and>
         use_loop a priority (front @ v # rest) t =
           (case use_loop a priority front t of
              Panicked re t' \<Rightarrow> Panicked re t'
            | Returned t' \<Rightarrow>
                (case r t' of
                   Panicked re t'' \<Rightarrow> Panicked re t''
                 | Returned t'' \<Rightarrow> use_loop a priority rest t'')) \<and>
         Layer_register_loop a priority (front @ v # rest) t =
           (case Layer_register_loop a priority front t of
              Panicked re t' \<Rightarrow> Panicked re t'
            | Returned t' \<Rightarrow>
                (case r t' of
                   Panicked re t'' \<Rightarrow> Panicked re t''
                 | Returned t'' \<Rightarrow> Layer_register_loop a priority rest t'')) \<and>
         Pool (prepared phase s) phase \<noteq> None \<and>
         phase_stack (prepared phase s) phase = phase_stack s phase \<and>
         phase_stack (state_of (Use Normal phase [v] s)) phase =
           phase_stack (state_of (r (prepared phase s))) phase \<and>
         (phase_stack (state_of (r (prepared phase s))) phase = phase_stack (prepared phase s) phase \<longrightarrow>
            phase_stack (state_of (Use Normal phase [v] s)) phase = phase_stack s phase \<and>
            phase_stack (state_of (UsePriority phase priority [v] s)) phase = phase_stack s phase \<and>
            phase_stack (state_of (Layer_register phase priority [v] s)) phase = phase_stack s phase)"
proof -
  have reg: "register t a p w = r t" if "as_Registrable w = Some r" for a p t w
    using that by (simp add: register_def)
  have one: "use_loop a p [w] t = r t" if "as_Registrable w = Some r" for a p t w
    using reg [OF that] by (simp split: outcome.split)
  have u: "use phase p [w] s = r (prepared phase s)" if "as_Registrable w = Some r" for p w
    using one [OF that] by (simp add: use_eq)
  have one0: "Layer_register_loop a p [v] t = r t" for a p t
    using assms by (simp split: outcome.split)
  then have u0: "Layer_register phase p [v] s = r (prepared phase s)" for p
    by (simp add: Layer_register_eq)
  have mid: "use_loop a priority (front @ v # rest) t =
           (case use_loop a priority front t of
              Panicked re t' \<Rightarrow> Panicked re t'
            | Returned t' \<Rightarrow>
                (case r t' of
                   Panicked re t'' \<Rightarrow> Panicked re t''
                 | Returned t'' \<Rightarrow> use_loop a priority rest t''))"
    by (simp add: use_loop_append reg [OF assms] split: outcome.split)
  have mid0: "Layer_register_loop a priority (front @ v # rest) t =
           (case Layer_register_loop a priority front t of
              Panicked re t' \<Rightarrow> Panicked re t'
            | Returned t' \<Rightarrow>
                (case r t' of
                   Panicked re t'' \<Rightarrow> Panicked re t''
                 | Returned t'' \<Rightarrow> Layer_register_loop a priority rest t''))"
    using assms by (simp add: Layer_register_loop_append split: outcome.split)
  have p1: "Pool (prepared phase s) phase \<noteq> None"
    by (simp add: prepared_def new_stack_def Let_def split: option.split)
  have p2: "phase_stack (prepared phase s) phase = phase_stack s phase"
    by (simp add: prepared_def new_stack_def phase_stack_def Let_def split: option.split)
  have same: "register t a priority v' = register t a priority v \<and>
            Use Normal phase [v'] s = Use Normal phase [v] s \<and>
            UsePriority phase priority [v'] s = UsePriority phase priority [v] s"
    if "as_Registrable v' = Some r"
    using reg [OF that] reg [OF assms] u [OF that] u [OF assms]
    by (simp add: Use_def UsePriority_def)
  show ?thesis
    unfolding Use_def UsePriority_def u [OF assms] u0
    using reg [OF assms] same [unfolded Use_def UsePriority_def u [OF assms]] mid mid0 p1 p2
    by simp
qed

theorem registrable_registers_itself_witness:
  "as_Registrable idle_plugin = Some Returned \<and>
   as_Registrable register_only = Some Returned \<and>
   AdaptFunc idle_plugin \<noteq> None \<and>
   AdaptFunc register_only = None \<and>
   Use 0 ''request'' [idle_plugin] New =
     Returned \<lparr>finalHandler = Some FinalHandler, memo = [''request'' \<mapsto> None],
        Pool = [''request'' \<mapsto> 0], stacks = [[]]\<rparr> \<and>
   Use 0 ''request'' [register_only] New = Use 0 ''request'' [idle_plugin] New \<and>
   phase_stack (state_of (Use 0 ''request'' [idle_plugin] New)) ''request'' = []"
proof -
  have r: "as_Registrable idle_plugin = Some Returned"
    by (simp add: as_Registrable_def idle_plugin_def)
  have r': "as_Registrable register_only = Some Returned"
    by (simp add: as_Registrable_def register_only_def)
  have a: "AdaptFunc idle_plugin \<noteq> None" "AdaptFunc register_only = None"
    by (simp_all add: AdaptFunc_def as_defs idle_plugin_def register_only_def)
  have e: "state_of (Returned (prepared ''request'' New)) = prepared ''request'' New"
    by (simp add: state_of_def)
  show ?thesis
    using r r' a
      registrable_registers_itself [OF r, of 0 "''request''" New 0 _ _ register_only]
    by (simp add: e) (simp add: prepared_def New_def new_stack_def phase_stack_def)
qed

end
